theory Spec2Isabelle
  imports Main "HOL-Library.Word"
begin

section \<open>JavaScript strings\<close>

text \<open>
  A JavaScript string is a sequence of UTF-16 code units; \<open>length\<close>, \<open>slice\<close> and
  \<open>trim\<close> all count code units. String literals of the source are ASCII and are
  embedded with \<open>lit\<close>.
\<close>

type_synonym jschar = "16 word"
type_synonym jsstring = "jschar list"

definition lit :: "string \<Rightarrow> jsstring" where
  "lit s = map of_char s"

text \<open>
  \<open>String.prototype.slice(start, end)\<close>: negative indices count from the end, both
  ends are clamped to the length, and an empty range gives the empty string.
\<close>

definition slice :: "jsstring \<Rightarrow> int \<Rightarrow> int \<Rightarrow> jsstring" where
  "slice s start fin =
     (let len = int (length s);
          lo = (if start < 0 then max (len + start) 0 else min start len);
          hi = (if fin < 0 then max (len + fin) 0 else min fin len)
      in if hi \<le> lo then [] else take (nat (hi - lo)) (drop (nat lo) s))"

text \<open>
  \<open>String.prototype.trim()\<close> strips the code units that ECMAScript counts as
  white space or line terminators from both ends.
\<close>

definition isWhiteSpace :: "jschar \<Rightarrow> bool" where
  "isWhiteSpace c =
     (c \<in> set [0x0009, 0x000A, 0x000B, 0x000C, 0x000D, 0x0020, 0x00A0, 0x1680,
                0x2000, 0x2001, 0x2002, 0x2003, 0x2004, 0x2005, 0x2006, 0x2007,
                0x2008, 0x2009, 0x200A, 0x2028, 0x2029, 0x202F, 0x205F, 0x3000,
                0xFEFF])"

definition trim :: "jsstring \<Rightarrow> jsstring" where
  "trim s = rev (dropWhile isWhiteSpace (rev (dropWhile isWhiteSpace s)))"

text \<open>A string used as a condition is truthy exactly when it is not empty.\<close>

definition truthy :: "jsstring \<Rightarrow> bool" where
  "truthy s = (s \<noteq> [])"

section \<open>replayInspectQueryModal.tsx\<close>

text \<open>
  \<open>handleSubmit\<close>: the result is the argument \<open>onSubmit\<close> is called with, or
  \<open>None\<close> when \<open>onSubmit\<close> is not called.
\<close>

definition handleSubmit :: "jsstring \<Rightarrow> jsstring option" where
  "handleSubmit query = (if truthy (trim query) then Some (trim query) else None)"

text \<open>The \<open>disabled\<close> attribute of the submit button.\<close>

definition submitDisabled :: "jsstring \<Rightarrow> bool" where
  "submitDisabled query = (\<not> truthy (trim query))"

definition htmlPreview :: "jsstring \<Rightarrow> jsstring" where
  "htmlPreview selectedHtml =
     (if length selectedHtml > 200 then slice selectedHtml 0 200 @ lit ''...''
      else selectedHtml)"

section \<open>buildSeerPrompt\<close>

definition promptIntro :: jsstring where
  "promptIntro = lit (''\<newline>\<newline>The user selected the following DOM element from a Session Replay recording. Use this HTML context to focus your investigation:\<newline>\<newline>'' @ [CHR 0x60, CHR 0x60, CHR 0x60] @ ''html\<newline>'')"

definition promptOutro :: jsstring where
  "promptOutro = lit (''\<newline>'' @ [CHR 0x60, CHR 0x60, CHR 0x60] @ ''\<newline>\<newline>Please use this HTML as context to help investigate the user'' @ [CHR 0x27] @ ''s query. The HTML represents a specific element the user identified in their session replay as relevant to their question.'')"

definition truncationMarker :: jsstring where
  "truncationMarker = lit ''\<newline>... (truncated)''"

definition buildSeerPrompt :: "jsstring \<Rightarrow> jsstring \<Rightarrow> jsstring" where
  "buildSeerPrompt userQuery html =
     (let truncatedHtml =
            (if length html > 5000 then slice html 0 5000 @ truncationMarker else html)
      in userQuery @ promptIntro @ truncatedHtml @ promptOutro)"

section \<open>The DOM, the replay context and the component's state\<close>

type_synonym docid = nat

text \<open>
  The nodes an event can have as its target: the body and the root element of a document,
  or any other element.
\<close>

datatype node = Body docid | DocumentElement docid | Element nat

text \<open>The two objects the component registers listeners on.\<close>

datatype eventTarget = IframeDocument docid | ParentDocument

datatype handlerName = HandleMouseOver | HandleMouseOut | HandleClick | HandleKeyDown

text \<open>
  Each run of the effect creates four new function objects that close over the
  \<open>doc\<close> of that run; a function object is identified by its name and its run.
\<close>

record closure =
  c_fn :: handlerName
  c_run :: nat
  c_doc :: docid

record listener =
  l_target :: eventTarget
  l_type :: string
  l_callback :: closure
  l_capture :: bool

record event =
  e_type :: string
  e_target :: "node option"
  e_key :: jsstring

text \<open>
  One record holds the component's hooks (\<open>useState\<close>, the three \<open>useRef\<close>s, the
  bookkeeping of \<open>useEffect\<close>) and the part of the page the component reads and
  writes. \<open>replayIframe\<close> is \<open>getReplayIframe()?.contentDocument\<close>: \<open>None\<close> when
  the iframe or its document is missing. \<open>inlineStyle\<close> is the declaration block
  behind each node's \<open>style\<close> object, \<open>browser\<close> the browser's parser and
  serialiser for such blocks, and \<open>domSerialize\<close> the browser's serialisation of a
  node to markup, which depends on the inline styles at the time it is read.
  \<open>listeners\<close> holds the listeners this component has registered.
  \<open>suppressed\<close> counts the events on which \<open>preventDefault\<close>,
  \<open>stopPropagation\<close> and \<open>stopImmediatePropagation\<close> were called.
\<close>

text \<open>
  The \<open>style\<close> object of a node is a list of declarations: property, value, and
  whether the declaration is marked important. Its \<open>cssText\<close> is not stored: the
  getter serialises the block and the setter parses the assigned text. Parser and
  serialiser belong to the browser and are parameters of the page.
\<close>

type_synonym cssDeclaration = "jsstring \<times> jsstring \<times> bool"
type_synonym styleBlock = "cssDeclaration list"

record cssom =
  parseBlock :: "jsstring \<Rightarrow> styleBlock"
  serializeBlock :: "styleBlock \<Rightarrow> jsstring"

record state =
  isInspecting :: bool
  wasPlayingRef :: bool
  previousHighlightRef :: "node option"
  previousStyleRef :: jsstring
  effectDeps :: "bool option"
  effectCleanup :: "(nat \<times> docid) option"
  effectRuns :: nat
  replayIframe :: "docid option"
  isPlaying :: bool
  inlineStyle :: "node \<Rightarrow> styleBlock"
  browser :: cssom
  domSerialize :: "(node \<Rightarrow> styleBlock) \<Rightarrow> node \<Rightarrow> jsstring"
  listeners :: "listener list"
  suppressed :: nat
  playPauseCalls :: "bool list"
  modal :: "jsstring option"
  seerExplorerCalls :: "jsstring list"

text \<open>Reading and assigning \<open>node.style.cssText\<close>, and reading \<open>node.outerHTML\<close>.\<close>

definition cssText :: "state \<Rightarrow> node \<Rightarrow> jsstring" where
  "cssText s = (\<lambda>n. serializeBlock (browser s) (inlineStyle s n))"

definition setCssText :: "node \<Rightarrow> jsstring \<Rightarrow> state \<Rightarrow> state" where
  "setCssText n v s = s\<lparr>inlineStyle := (inlineStyle s)(n := parseBlock (browser s) v)\<rparr>"

definition outerHTML :: "state \<Rightarrow> node \<Rightarrow> jsstring" where
  "outerHTML s = domSerialize s (inlineStyle s)"


definition setProperty :: "jsstring \<Rightarrow> jsstring \<Rightarrow> styleBlock \<Rightarrow> styleBlock" where
  "setProperty p v b =
     (if v = [] then filter (\<lambda>d. fst d \<noteq> p) b
      else if p \<in> set (map fst b)
        then map (\<lambda>d. if fst d = p then (p, v, False) else d) b
        else b @ [(p, v, False)])"


definition setBodyCursor :: "docid \<Rightarrow> jsstring \<Rightarrow> state \<Rightarrow> state" where
  "setBodyCursor d v s =
     s\<lparr>inlineStyle :=
         (inlineStyle s)(Body d := setProperty (lit ''cursor'') v (inlineStyle s (Body d)))\<rparr>"

text \<open>
  Modelled from the spec: the replay context's play/pause control, whose code is not
  among these files. A call is logged and sets the playing flag of the context.
\<close>

definition togglePlayPause :: "bool \<Rightarrow> state \<Rightarrow> state" where
  "togglePlayPause play s =
     s\<lparr>playPauseCalls := playPauseCalls s @ [play], isPlaying := play\<rparr>"

text \<open>
  Modelled from the spec: \<open>openModal\<close>, \<open>closeModal\<close> and \<open>openSeerExplorer\<close>,
  whose code is not among these files. The open modal is known by the markup it was
  opened with; the explorer call is logged with its initial message.
\<close>

definition openModal :: "jsstring \<Rightarrow> state \<Rightarrow> state" where
  "openModal html s = s\<lparr>modal := Some html\<rparr>"

definition closeModal :: "state \<Rightarrow> state" where
  "closeModal s = s\<lparr>modal := None\<rparr>"

definition openSeerExplorer :: "jsstring \<Rightarrow> state \<Rightarrow> state" where
  "openSeerExplorer initialMessage s =
     s\<lparr>seerExplorerCalls := seerExplorerCalls s @ [initialMessage]\<rparr>"

text \<open>
  \<open>addEventListener\<close> ignores a listener that is already registered with the same
  type, callback and capture flag; \<open>removeEventListener\<close> removes the one that
  matches in all three.
\<close>

definition addEventListener :: "listener \<Rightarrow> state \<Rightarrow> state" where
  "addEventListener l s =
     (if l \<in> set (listeners s) then s else s\<lparr>listeners := listeners s @ [l]\<rparr>)"

definition removeEventListener :: "listener \<Rightarrow> state \<Rightarrow> state" where
  "removeEventListener l s = s\<lparr>listeners := remove1 l (listeners s)\<rparr>"

section \<open>replayDOMInspectButton.tsx\<close>

definition HIGHLIGHT_STYLE :: jsstring where
  "HIGHLIGHT_STYLE = lit ''outline: 2px solid #6C5FC7 !important; outline-offset: -1px !important; cursor: crosshair !important;''"

definition cleanupHighlight :: "state \<Rightarrow> state" where
  "cleanupHighlight s =
     (case previousHighlightRef s of
        None \<Rightarrow> s
      | Some el \<Rightarrow>
          (setCssText el (previousStyleRef s) s)
            \<lparr>previousHighlightRef := None, previousStyleRef := []\<rparr>)"

definition stopInspecting :: "state \<Rightarrow> state" where
  "stopInspecting s =
     (let s1 = cleanupHighlight (s\<lparr>isInspecting := False\<rparr>);
          s2 = (case replayIframe s1 of
                  None \<Rightarrow> s1
                | Some d \<Rightarrow> setBodyCursor d [] s1)
      in if wasPlayingRef s2 then (togglePlayPause True s2)\<lparr>wasPlayingRef := False\<rparr>
         else s2)"

text \<open>The \<open>onSubmit\<close> callback that \<open>handleElementSelected\<close> gives to the modal.\<close>

definition onSubmit :: "jsstring \<Rightarrow> jsstring \<Rightarrow> state \<Rightarrow> state" where
  "onSubmit html query s = openSeerExplorer (buildSeerPrompt query html) (closeModal s)"

definition handleElementSelected :: "jsstring \<Rightarrow> state \<Rightarrow> state" where
  "handleElementSelected html s = openModal html (stopInspecting s)"

text \<open>Submitting the form of the open modal with the text typed into it.\<close>

definition submitForm :: "jsstring \<Rightarrow> state \<Rightarrow> state" where
  "submitForm query s =
     (case modal s of
        None \<Rightarrow> s
      | Some html \<Rightarrow>
          (case handleSubmit query of None \<Rightarrow> s | Some q \<Rightarrow> onSubmit html q s))"

subsection \<open>The handlers created by the effect\<close>

definition handleMouseOver :: "docid \<Rightarrow> event \<Rightarrow> state \<Rightarrow> state" where
  "handleMouseOver doc e s =
     (case e_target e of
        None \<Rightarrow> s
      | Some target \<Rightarrow>
          if target = Body doc \<or> target = DocumentElement doc then s
          else
            let s1 = cleanupHighlight s;
                s2 = s1\<lparr>previousHighlightRef := Some target,
                        previousStyleRef := cssText s1 target\<rparr>
            in setCssText target (cssText s2 target @ HIGHLIGHT_STYLE) s2)"

definition handleMouseOut :: "event \<Rightarrow> state \<Rightarrow> state" where
  "handleMouseOut e s =
     (if e_target e = previousHighlightRef s then cleanupHighlight s else s)"

definition handleClick :: "docid \<Rightarrow> event \<Rightarrow> state \<Rightarrow> state" where
  "handleClick doc e s =
     (let s0 = s\<lparr>suppressed := Suc (suppressed s)\<rparr>
      in case e_target e of
           None \<Rightarrow> s0
         | Some target \<Rightarrow>
             if target = Body doc \<or> target = DocumentElement doc then s0
             else
               let html = slice (outerHTML s0 target) 0 10000
               in handleElementSelected html s0)"

definition handleKeyDown :: "event \<Rightarrow> state \<Rightarrow> state" where
  "handleKeyDown e s = (if e_key e = lit ''Escape'' then stopInspecting s else s)"

subsection \<open>The effect\<close>

definition mkListener :: "eventTarget \<Rightarrow> string \<Rightarrow> handlerName \<Rightarrow> nat \<Rightarrow> docid \<Rightarrow> bool \<Rightarrow> listener" where
  "mkListener t ty h r doc cap =
     \<lparr>l_target = t, l_type = ty,
      l_callback = \<lparr>c_fn = h, c_run = r, c_doc = doc\<rparr>, l_capture = cap\<rparr>"

text \<open>The five \<open>addEventListener\<close> calls of run \<open>r\<close> of the effect, in order.\<close>

definition attachCalls :: "nat \<Rightarrow> docid \<Rightarrow> listener list" where
  "attachCalls r doc =
     [mkListener (IframeDocument doc) ''mouseover'' HandleMouseOver r doc True,
      mkListener (IframeDocument doc) ''mouseout'' HandleMouseOut r doc True,
      mkListener (IframeDocument doc) ''click'' HandleClick r doc True,
      mkListener (IframeDocument doc) ''keydown'' HandleKeyDown r doc True,
      mkListener ParentDocument ''keydown'' HandleKeyDown r doc True]"

text \<open>The five \<open>removeEventListener\<close> calls of the cleanup that run \<open>r\<close> returns.\<close>

definition detachCalls :: "nat \<Rightarrow> docid \<Rightarrow> listener list" where
  "detachCalls r doc =
     [mkListener (IframeDocument doc) ''mouseover'' HandleMouseOver r doc True,
      mkListener (IframeDocument doc) ''mouseout'' HandleMouseOut r doc True,
      mkListener (IframeDocument doc) ''click'' HandleClick r doc True,
      mkListener (IframeDocument doc) ''keydown'' HandleKeyDown r doc True,
      mkListener ParentDocument ''keydown'' HandleKeyDown r doc True]"

text \<open>
  The body of the effect, run \<open>effectRuns s\<close>. It stores the cleanup it returns
  (known by the run and the document it closes over) in \<open>effectCleanup\<close>.
\<close>

definition effectBody :: "state \<Rightarrow> state" where
  "effectBody s =
     (if \<not> isInspecting s then s
      else
        case replayIframe s of
          None \<Rightarrow> s\<lparr>isInspecting := False\<rparr>
        | Some doc \<Rightarrow>
            let r = effectRuns s;
                s1 = setBodyCursor doc (lit ''crosshair'') s;
                s2 = fold addEventListener (attachCalls r doc) s1
            in s2\<lparr>effectCleanup := Some (r, doc)\<rparr>)"

text \<open>Running the cleanup that the previous run of the effect returned, if any.\<close>

definition runCleanup :: "state \<Rightarrow> state" where
  "runCleanup s =
     (case effectCleanup s of
        None \<Rightarrow> s
      | Some (r, doc) \<Rightarrow>
          (fold removeEventListener (detachCalls r doc) s)\<lparr>effectCleanup := None\<rparr>)"

text \<open>
  One render of the component. React runs the effect when a dependency has changed
  since the last run: \<open>isInspecting\<close>, or one of the callbacks, whose identity changes
  exactly when the replay context hands out a new \<open>getReplayIframe\<close> or
  \<open>togglePlayPause\<close> (\<open>ctxChanged\<close>). It runs the previous cleanup first.
\<close>

definition render :: "bool \<Rightarrow> state \<Rightarrow> state" where
  "render ctxChanged s =
     (if effectDeps s = Some (isInspecting s) \<and> \<not> ctxChanged then s
      else effectBody
             ((runCleanup s)\<lparr>effectDeps := Some (isInspecting s),
                             effectRuns := Suc (effectRuns s)\<rparr>))"

text \<open>
  A state update made by the effect itself schedules one more render; after it nothing
  is pending.
\<close>

definition flush :: "bool \<Rightarrow> state \<Rightarrow> state" where
  "flush ctxChanged s = render False (render ctxChanged s)"

subsection \<open>The button\<close>

definition handleToggleInspect :: "state \<Rightarrow> state" where
  "handleToggleInspect s =
     (if isInspecting s then stopInspecting s
      else
        case replayIframe s of
          None \<Rightarrow> s
        | Some d \<Rightarrow>
            let s1 = (if isPlaying s
                      then togglePlayPause False (s\<lparr>wasPlayingRef := True\<rparr>)
                      else s)
            in s1\<lparr>isInspecting := True\<rparr>)"

subsection \<open>Event dispatch and runs of the component\<close>

definition invoke :: "closure \<Rightarrow> event \<Rightarrow> state \<Rightarrow> state" where
  "invoke c e s =
     (case c_fn c of
        HandleMouseOver \<Rightarrow> handleMouseOver (c_doc c) e s
      | HandleMouseOut \<Rightarrow> handleMouseOut e s
      | HandleClick \<Rightarrow> handleClick (c_doc c) e s
      | HandleKeyDown \<Rightarrow> handleKeyDown e s)"

text \<open>
  An event passing through document \<open>t\<close> calls the listeners registered there for
  its type, in the order of registration.
\<close>

definition dispatchEvent :: "eventTarget \<Rightarrow> event \<Rightarrow> state \<Rightarrow> state" where
  "dispatchEvent t e s =
     fold (\<lambda>l. invoke (l_callback l) e)
          (filter (\<lambda>l. l_target l = t \<and> l_type l = e_type e) (listeners s)) s"

text \<open>
  What can happen to a mounted component: the button is clicked, an event passes through
  one of the two documents, the replay context swaps or drops the iframe or changes the
  playing flag, the component is rendered again, the modal's form is submitted. React
  renders after every handler that ran, before the next event is delivered.
\<close>

datatype action =
    ClickInspectButton
  | DomEvent eventTarget event
  | SetReplayIframe "docid option"
  | SetIsPlaying bool
  | Rerender bool
  | SubmitForm jsstring

fun step :: "action \<Rightarrow> state \<Rightarrow> state" where
  "step ClickInspectButton s = flush False (handleToggleInspect s)"
| "step (DomEvent t e) s = flush False (dispatchEvent t e s)"
| "step (SetReplayIframe d) s = s\<lparr>replayIframe := d\<rparr>"
| "step (SetIsPlaying b) s = s\<lparr>isPlaying := b\<rparr>"
| "step (Rerender ctxChanged) s = flush ctxChanged s"
| "step (SubmitForm query) s = submitForm query s"

text \<open>
  The component before its first render, on a page given by the five arguments: the
  iframe's document, the playing flag, the inline styles, the browser's serialisation of
  nodes, and its parser and serialiser of styles.
\<close>

definition initial ::
  "docid option \<Rightarrow> bool \<Rightarrow> (node \<Rightarrow> styleBlock)
     \<Rightarrow> ((node \<Rightarrow> styleBlock) \<Rightarrow> node \<Rightarrow> jsstring) \<Rightarrow> cssom \<Rightarrow> state" where
  "initial iframe playing styles markup engine =
     \<lparr>isInspecting = False, wasPlayingRef = False, previousHighlightRef = None,
      previousStyleRef = [], effectDeps = None, effectCleanup = None, effectRuns = 0,
      replayIframe = iframe, isPlaying = playing, inlineStyle = styles, browser = engine,
      domSerialize = markup, listeners = [], suppressed = 0, playPauseCalls = [],
      modal = None, seerExplorerCalls = []\<rparr>"

definition mount ::
  "docid option \<Rightarrow> bool \<Rightarrow> (node \<Rightarrow> styleBlock)
     \<Rightarrow> ((node \<Rightarrow> styleBlock) \<Rightarrow> node \<Rightarrow> jsstring) \<Rightarrow> cssom \<Rightarrow> state" where
  "mount iframe playing styles markup engine =
     flush False (initial iframe playing styles markup engine)"

definition runActions :: "action list \<Rightarrow> state \<Rightarrow> state" where
  "runActions as s = fold step as s"

subsection \<open>Invariants of the effect's bookkeeping\<close>

text \<open>
  \<open>wired\<close>: the registered listeners are exactly those of the cleanup that is pending.
  \<open>settled\<close>: moreover the effect has caught up with \<open>isInspecting\<close>.
\<close>

definition wired :: "state \<Rightarrow> bool" where
  "wired s =
     (case effectCleanup s of
        None \<Rightarrow> effectDeps s = Some False \<and> listeners s = []
      | Some c \<Rightarrow> effectDeps s = Some True \<and> listeners s = attachCalls (fst c) (snd c))"

definition settled :: "state \<Rightarrow> bool" where
  "settled s =
     (case effectCleanup s of
        None \<Rightarrow> \<not> isInspecting s \<and> effectDeps s = Some False \<and> listeners s = []
      | Some c \<Rightarrow>
          isInspecting s \<and> effectDeps s = Some True
          \<and> listeners s = attachCalls (fst c) (snd c))"

subsection \<open>A small page for concrete runs\<close>

definition mouseEvent :: "string \<Rightarrow> node option \<Rightarrow> event" where
  "mouseEvent ty t = \<lparr>e_type = ty, e_target = t, e_key = []\<rparr>"

definition keyboardEvent :: "string \<Rightarrow> jsstring \<Rightarrow> event" where
  "keyboardEvent ty k = \<lparr>e_type = ty, e_target = None, e_key = k\<rparr>"

text \<open>
  A small parser and serialiser of declaration blocks for the example page. The text is
  cut at semicolons and each piece at its first colon; a value that ends in
  \<open>!important\<close> marks the declaration important. Values are kept as written.
\<close>

fun splitOn :: "jschar \<Rightarrow> jsstring \<Rightarrow> jsstring list" where
  "splitOn c [] = [[]]"
| "splitOn c (x # xs) =
     (if x = c then [] # splitOn c xs
      else case splitOn c xs of [] \<Rightarrow> [[x]] | p # ps \<Rightarrow> (x # p) # ps)"

definition exampleParseDeclaration :: "jsstring \<Rightarrow> cssDeclaration option" where
  "exampleParseDeclaration piece =
     (let p = trim (takeWhile (\<lambda>c. c \<noteq> 0x3A) piece);
          r = dropWhile (\<lambda>c. c \<noteq> 0x3A) piece;
          v = trim (tl r);
          n = length v - 10
      in if p = [] \<or> r = [] \<or> v = [] then None
         else if 10 \<le> length v \<and> drop n v = lit ''!important''
           then Some (p, trim (take n v), True)
           else Some (p, v, False))"

definition exampleParse :: "jsstring \<Rightarrow> styleBlock" where
  "exampleParse text = List.map_filter exampleParseDeclaration (splitOn 0x3B text)"

fun joinWith :: "jsstring \<Rightarrow> jsstring list \<Rightarrow> jsstring" where
  "joinWith sep [] = []"
| "joinWith sep [x] = x"
| "joinWith sep (x # y # ys) = x @ sep @ joinWith sep (y # ys)"

definition exampleSerializeDeclaration :: "cssDeclaration \<Rightarrow> jsstring" where
  "exampleSerializeDeclaration d =
     fst d @ lit '': '' @ fst (snd d)
       @ (if snd (snd d) then lit '' !important'' else []) @ lit '';''"

definition exampleSerialize :: "styleBlock \<Rightarrow> jsstring" where
  "exampleSerialize b = joinWith (lit '' '') (map exampleSerializeDeclaration b)"

definition exampleCssom :: cssom where
  "exampleCssom = \<lparr>parseBlock = exampleParse, serializeBlock = exampleSerialize\<rparr>"

definition exampleStyles :: "node \<Rightarrow> styleBlock" where
  "exampleStyles n = (if n = Element 1 then [(lit ''color'', lit ''red'', False)] else [])"

text \<open>Element 1 is a paragraph; its markup carries its inline style, if it has one.\<close>

definition exampleMarkup :: "(node \<Rightarrow> styleBlock) \<Rightarrow> node \<Rightarrow> jsstring" where
  "exampleMarkup styles n =
     (if n = Element 1
      then (if styles n = [] then lit ''<p>hi</p>''
            else lit ''<p style='' @ [0x22] @ exampleSerialize (styles n) @ [0x22]
                   @ lit ''>hi</p>'')
      else [])"

definition examplePage :: "bool \<Rightarrow> state" where
  "examplePage playing = mount (Some 0) playing exampleStyles exampleMarkup exampleCssom"

text \<open>
  A run in which the iframe is gone when the effect runs again during an inspection that
  was started while the replay was playing, followed by a second inspection started while
  the replay is paused and ended with Escape.
\<close>

definition staleFlagRun :: "action list" where
  "staleFlagRun =
     [ClickInspectButton, SetReplayIframe None, Rerender True, SetReplayIframe (Some 0),
      SetIsPlaying False, ClickInspectButton,
      DomEvent ParentDocument (keyboardEvent ''keydown'' (lit ''Escape''))]"

section \<open>Facts about slicing and trimming\<close>

lemma slice_prefix: "0 \<le> n \<Longrightarrow> slice s 0 n = take (nat n) s"
  by (auto simp: slice_def Let_def min_def)

lemma dropWhile_split:
  "\<exists>pre. xs = pre @ dropWhile P xs \<and> (\<forall>c\<in>set pre. P c)"
proof
  show "xs = takeWhile P xs @ dropWhile P xs \<and> (\<forall>c\<in>set (takeWhile P xs). P c)"
    by (auto dest: set_takeWhileD)
qed

lemma dropWhile_rev_split:
  "\<exists>post. xs = rev (dropWhile P (rev xs)) @ post \<and> (\<forall>c\<in>set post. P c)"
proof -
  obtain pre where p: "rev xs = pre @ dropWhile P (rev xs)" and a: "\<forall>c\<in>set pre. P c"
    using dropWhile_split [of "rev xs" P] by blast
  from p have "rev (rev xs) = rev (pre @ dropWhile P (rev xs))" by simp
  then have "xs = rev (dropWhile P (rev xs)) @ rev pre" by simp
  with a show ?thesis by (intro exI [of _ "rev pre"]) simp
qed

lemma trim_split:
  "\<exists>pre post. s = pre @ trim s @ post
      \<and> (\<forall>c\<in>set pre. isWhiteSpace c) \<and> (\<forall>c\<in>set post. isWhiteSpace c)"
proof -
  obtain pre where p: "s = pre @ dropWhile isWhiteSpace s"
      and a: "\<forall>c\<in>set pre. isWhiteSpace c"
    using dropWhile_split [of s isWhiteSpace] by blast
  obtain post where q: "dropWhile isWhiteSpace s = trim s @ post"
      and b: "\<forall>c\<in>set post. isWhiteSpace c"
    using dropWhile_rev_split [of "dropWhile isWhiteSpace s" isWhiteSpace]
    unfolding trim_def by blast
  from p q have "s = pre @ trim s @ post" by simp
  with a b show ?thesis by blast
qed

lemma trim_hd: "trim s \<noteq> [] \<Longrightarrow> \<not> isWhiteSpace (hd (trim s))"
proof -
  assume ne: "trim s \<noteq> []"
  let ?d = "dropWhile isWhiteSpace s"
  have t: "trim s = rev (dropWhile isWhiteSpace (rev ?d))" by (simp add: trim_def)
  have dne: "?d \<noteq> []"
  proof
    assume "?d = []"
    with t have "trim s = []" by simp
    with ne show False by simp
  qed
  then have h: "\<not> isWhiteSpace (hd ?d)" by (rule hd_dropWhile)
  obtain post where q: "?d = trim s @ post"
    using dropWhile_rev_split [of ?d isWhiteSpace] t by auto
  from q ne have "hd ?d = hd (trim s)" by (metis hd_append2)
  with h show ?thesis by simp
qed

lemma trim_last: "trim s \<noteq> [] \<Longrightarrow> \<not> isWhiteSpace (last (trim s))"
proof -
  assume ne: "trim s \<noteq> []"
  let ?r = "dropWhile isWhiteSpace (rev (dropWhile isWhiteSpace s))"
  have t: "trim s = rev ?r" by (simp add: trim_def)
  with ne have "?r \<noteq> []" by auto
  then have "\<not> isWhiteSpace (hd ?r)" by (rule hd_dropWhile)
  moreover from \<open>?r \<noteq> []\<close> have "last (rev ?r) = hd ?r" by (simp add: last_rev)
  ultimately show ?thesis using t by simp
qed

lemma trim_all_ws: "(\<forall>c\<in>set s. isWhiteSpace c) \<Longrightarrow> trim s = []"
proof -
  assume a: "\<forall>c\<in>set s. isWhiteSpace c"
  then have d: "dropWhile isWhiteSpace s = []" by (induction s) simp_all
  show ?thesis unfolding trim_def d by simp
qed


section \<open>Listeners follow the inspecting flag\<close>

lemma fold_attach:
  "listeners s = [] \<Longrightarrow> fold addEventListener (attachCalls r d) s = s\<lparr>listeners := attachCalls r d\<rparr>"
  by (simp add: attachCalls_def addEventListener_def mkListener_def)

lemma fold_detach:
  "listeners s = attachCalls r d \<Longrightarrow> fold removeEventListener (detachCalls r d) s = s\<lparr>listeners := []\<rparr>"
  by (simp add: attachCalls_def detachCalls_def removeEventListener_def mkListener_def)

lemma runCleanup_wired:
  "wired s \<Longrightarrow> runCleanup s = s\<lparr>listeners := [], effectCleanup := None\<rparr>"
  by (auto simp: wired_def runCleanup_def fold_detach split: option.splits)

lemma effectBody_clean:
  "listeners s = [] \<Longrightarrow> effectCleanup s = None \<Longrightarrow>
     effectBody s =
       (if \<not> isInspecting s then s
        else case replayIframe s of
               None \<Rightarrow> s\<lparr>isInspecting := False\<rparr>
             | Some d \<Rightarrow> s\<lparr>inlineStyle := inlineStyle (setBodyCursor d (lit ''crosshair'') s),
                           listeners := attachCalls (effectRuns s) d,
                           effectCleanup := Some (effectRuns s, d)\<rparr>)"
  by (simp add: effectBody_def setBodyCursor_def fold_attach Let_def split: option.splits)

lemma settled_wired: "settled s \<Longrightarrow> wired s"
  by (auto simp: settled_def wired_def split: option.splits)

lemma render_settled: "settled s \<Longrightarrow> render False s = s"
  by (auto simp: settled_def render_def split: option.splits)

lemma render_wired:
  "wired s \<Longrightarrow> render ctx s =
     (if effectDeps s = Some (isInspecting s) \<and> \<not> ctx then s
      else if \<not> isInspecting s
        then s\<lparr>listeners := [], effectCleanup := None,
               effectDeps := Some False, effectRuns := Suc (effectRuns s)\<rparr>
        else case replayIframe s of
               None \<Rightarrow> s\<lparr>listeners := [], effectCleanup := None, effectDeps := Some True,
                          effectRuns := Suc (effectRuns s), isInspecting := False\<rparr>
             | Some d \<Rightarrow> s\<lparr>listeners := attachCalls (Suc (effectRuns s)) d,
                           effectCleanup := Some (Suc (effectRuns s), d),
                           effectDeps := Some True, effectRuns := Suc (effectRuns s),
                           inlineStyle := inlineStyle (setBodyCursor d (lit ''crosshair'') s)\<rparr>)"
  by (simp add: render_def runCleanup_wired effectBody_def setBodyCursor_def fold_attach Let_def
      split: option.splits)

lemma render_unsettled:
  "effectCleanup s = None \<Longrightarrow> listeners s = [] \<Longrightarrow> \<not> isInspecting s \<Longrightarrow>
     effectDeps s = Some True \<Longrightarrow>
     render False s = s\<lparr>effectDeps := Some False, effectRuns := Suc (effectRuns s)\<rparr>"
  by (simp add: render_def runCleanup_def effectBody_def setBodyCursor_def)

lemma flush_wired: "wired s \<Longrightarrow> settled (flush ctx s)"
proof -
  assume w: "wired s"
  show ?thesis
  proof (cases "effectDeps s = Some (isInspecting s) \<and> \<not> ctx")
    case True
    then have r: "render ctx s = s" by (simp add: render_def)
    from True w have "settled s" by (auto simp: settled_def wired_def split: option.splits)
    then show ?thesis by (simp add: flush_def r render_settled)
  next
    case False
    note nf = False
    show ?thesis
    proof (cases "isInspecting s")
      case False
      then have r: "render ctx s = s\<lparr>listeners := [], effectCleanup := None,
               effectDeps := Some False, effectRuns := Suc (effectRuns s)\<rparr>"
        using nf by (auto simp: render_wired [OF w])
      have "settled (render ctx s)" unfolding r using False by (simp add: settled_def)
      then show ?thesis by (simp add: flush_def render_settled)
    next
      case True
      show ?thesis
      proof (cases "replayIframe s")
        case None
        then have r: "render ctx s = s\<lparr>listeners := [], effectCleanup := None, effectDeps := Some True,
                          effectRuns := Suc (effectRuns s), isInspecting := False\<rparr>"
          using nf True by (auto simp: render_wired [OF w])
        show ?thesis unfolding flush_def r
          by (simp add: render_unsettled settled_def)
      next
        case (Some d)
        then have r: "render ctx s = s\<lparr>listeners := attachCalls (Suc (effectRuns s)) d,
                           effectCleanup := Some (Suc (effectRuns s), d),
                           effectDeps := Some True, effectRuns := Suc (effectRuns s),
                           inlineStyle := inlineStyle (setBodyCursor d (lit ''crosshair'') s)\<rparr>"
          using nf True by (auto simp: render_wired [OF w])
        have "settled (render ctx s)" unfolding r using True by (simp add: settled_def)
        then show ?thesis by (simp add: flush_def render_settled)
      qed
    qed
  qed
qed

lemma cleanupHighlight_frame:
  "listeners (cleanupHighlight s) = listeners s \<and> effectCleanup (cleanupHighlight s) = effectCleanup s
   \<and> effectDeps (cleanupHighlight s) = effectDeps s"
  by (simp add: cleanupHighlight_def setCssText_def setBodyCursor_def split: option.splits)

lemma stopInspecting_frame:
  "listeners (stopInspecting s) = listeners s \<and> effectCleanup (stopInspecting s) = effectCleanup s
   \<and> effectDeps (stopInspecting s) = effectDeps s"
  by (simp add: stopInspecting_def cleanupHighlight_def setCssText_def setBodyCursor_def togglePlayPause_def Let_def split: option.splits)

lemma invoke_frame:
  "listeners (invoke c e s) = listeners s \<and> effectCleanup (invoke c e s) = effectCleanup s
   \<and> effectDeps (invoke c e s) = effectDeps s"
  by (simp add: invoke_def handleMouseOver_def handleMouseOut_def handleClick_def handleKeyDown_def
      setCssText_def
      handleElementSelected_def openModal_def stopInspecting_frame cleanupHighlight_frame Let_def
      split: handlerName.splits option.splits)

lemma wired_cong:
  "listeners s' = listeners s \<Longrightarrow> effectCleanup s' = effectCleanup s \<Longrightarrow> effectDeps s' = effectDeps s
    \<Longrightarrow> wired s \<Longrightarrow> wired s'"
  by (simp add: wired_def split: option.splits)

lemma fold_invoke_wired: "wired s \<Longrightarrow> wired (fold (\<lambda>l. invoke (l_callback l) e) ls s)"
proof (induction ls arbitrary: s)
  case Nil
  then show ?case by simp
next
  case (Cons l ls)
  have "wired (invoke (l_callback l) e s)"
    using invoke_frame [of "l_callback l" e s] Cons.prems by (auto intro: wired_cong)
  then show ?case using Cons.IH by simp
qed

lemma dispatchEvent_wired: "wired s \<Longrightarrow> wired (dispatchEvent t e s)"
  by (simp add: dispatchEvent_def fold_invoke_wired)

lemma handleToggleInspect_wired: "wired s \<Longrightarrow> wired (handleToggleInspect s)"
proof -
  assume w: "wired s"
  have "listeners (handleToggleInspect s) = listeners s \<and> effectCleanup (handleToggleInspect s) = effectCleanup s
   \<and> effectDeps (handleToggleInspect s) = effectDeps s"
    by (simp add: handleToggleInspect_def stopInspecting_frame togglePlayPause_def Let_def split: option.splits)
  with w show ?thesis by (auto intro: wired_cong)
qed

lemma submitForm_settled: "settled s \<Longrightarrow> settled (submitForm q s)"
  by (simp add: submitForm_def onSubmit_def openSeerExplorer_def closeModal_def settled_def
      split: option.splits)

lemma step_settled: "settled s \<Longrightarrow> settled (step a s)"
proof (cases a)
  case ClickInspectButton
  assume "settled s"
  then show ?thesis using ClickInspectButton
    by (simp add: flush_wired handleToggleInspect_wired settled_wired)
next
  case (DomEvent t e)
  assume "settled s"
  then show ?thesis using DomEvent by (simp add: flush_wired dispatchEvent_wired settled_wired)
next
  case (SetReplayIframe d)
  assume "settled s"
  then show ?thesis using SetReplayIframe by (simp add: settled_def split: option.splits)
next
  case (SetIsPlaying b)
  assume "settled s"
  then show ?thesis using SetIsPlaying by (simp add: settled_def split: option.splits)
next
  case (Rerender c)
  assume "settled s"
  then show ?thesis using Rerender by (simp add: flush_wired settled_wired)
next
  case (SubmitForm q)
  assume "settled s"
  then show ?thesis using SubmitForm by (simp add: submitForm_settled)
qed

lemma mount_settled: "settled (mount i p st mk cu)"
  by (simp add: mount_def initial_def flush_def render_def runCleanup_def effectBody_def setBodyCursor_def settled_def)

lemma runActions_settled: "settled s \<Longrightarrow> settled (runActions as s)"
  unfolding runActions_def by (induction as arbitrary: s) (simp_all add: step_settled)

lemma reachable_settled: "settled (runActions as (mount i p st mk cu))"
  by (rule runActions_settled [OF mount_settled])


lemmas page_defs = examplePage_def mount_def initial_def flush_def render_def runCleanup_def
  effectBody_def setBodyCursor_def setProperty_def exampleStyles_def exampleMarkup_def
  exampleCssom_def mouseEvent_def keyboardEvent_def

section \<open>What the handlers and a render change\<close>

lemma settled_cases:
  "settled s \<Longrightarrow>
     (\<not> isInspecting s \<and> effectCleanup s = None \<and> effectDeps s = Some False \<and> listeners s = [])
   \<or> (\<exists>r d. isInspecting s \<and> effectCleanup s = Some (r, d) \<and> effectDeps s = Some True
          \<and> listeners s = attachCalls r d)"
  by (auto simp: settled_def split: option.splits)

lemma flush_settled: "settled s \<Longrightarrow> flush False s = s"
  by (simp add: flush_def render_settled)




lemma stopInspecting_fields:
  "\<not> isInspecting (stopInspecting s)
   \<and> \<not> wasPlayingRef (stopInspecting s)
   \<and> previousHighlightRef (stopInspecting s) = None
   \<and> inlineStyle (stopInspecting s) =
        (case replayIframe s of
           None \<Rightarrow> inlineStyle (cleanupHighlight s)
         | Some d \<Rightarrow> inlineStyle (setBodyCursor d [] (cleanupHighlight s)))
   \<and> browser (stopInspecting s) = browser s
   \<and> playPauseCalls (stopInspecting s) = playPauseCalls s @ (if wasPlayingRef s then [True] else [])
   \<and> isPlaying (stopInspecting s) = (wasPlayingRef s \<or> isPlaying s)
   \<and> replayIframe (stopInspecting s) = replayIframe s"
  by (simp add: stopInspecting_def cleanupHighlight_def setCssText_def setBodyCursor_def togglePlayPause_def Let_def
      split: option.splits)

lemma stopInspecting_style:
  "previousStyleRef (stopInspecting s) = (if previousHighlightRef s = None then previousStyleRef s else [])"
  by (simp add: stopInspecting_def cleanupHighlight_def setCssText_def setBodyCursor_def togglePlayPause_def Let_def
      split: option.splits)




lemmas run_defs = runActions_def page_defs handleToggleInspect_def
      togglePlayPause_def attachCalls_def detachCalls_def mkListener_def addEventListener_def
      removeEventListener_def dispatchEvent_def invoke_def handleKeyDown_def stopInspecting_def
      cleanupHighlight_def setCssText_def setBodyCursor_def Let_def

section \<open>Truncation of the captured markup\<close>

text \<open>
  Claim C1. A click on an element that is neither the body nor the root element of the
  iframe's document opens the modal with the first 10000 code units of the element's
  outerHTML: with the outerHTML itself when it has at most 10000 code units, and with
  exactly its first 10000 otherwise.
\<close>

theorem C1_click_captures_first_10000:
  assumes "e_target e = Some t" and "t \<noteq> Body doc" and "t \<noteq> DocumentElement doc"
  shows "modal (handleClick doc e s) = Some (take 10000 (outerHTML s t))
       \<and> (length (outerHTML s t) \<le> 10000 \<longrightarrow>
            modal (handleClick doc e s) = Some (outerHTML s t))
       \<and> (length (outerHTML s t) > 10000 \<longrightarrow>
            (\<exists>html. modal (handleClick doc e s) = Some html \<and> length html = 10000
                  \<and> html = take 10000 (outerHTML s t)))"
proof -
  have m: "modal (handleClick doc e s) = Some (slice (outerHTML s t) 0 10000)"
    using assms
    by (simp add: handleClick_def handleElementSelected_def openModal_def outerHTML_def Let_def)
  have sl: "slice (outerHTML s t) 0 10000 = take 10000 (outerHTML s t)"
    using slice_prefix [of 10000 "outerHTML s t"] by simp
  show ?thesis using m sl by simp
qed

theorem C1_click_captures_first_10000_witness:
  "modal (handleClick 0 (mouseEvent ''click'' (Some (Element 1))) (examplePage True))
     = Some (lit ''<p style='' @ [0x22] @ lit ''color: red;'' @ [0x22] @ lit ''>hi</p>'')"
proof -
  have o: "outerHTML (examplePage True) (Element 1)
             = lit ''<p style='' @ [0x22] @ lit ''color: red;'' @ [0x22] @ lit ''>hi</p>''"
    by (simp add: page_defs outerHTML_def exampleSerialize_def
        exampleSerializeDeclaration_def lit_def)
  show ?thesis
    using C1_click_captures_first_10000
      [of "mouseEvent ''click'' (Some (Element 1))" "Element 1" 0 "examplePage True"] o
    by (simp add: mouseEvent_def lit_def)
qed

text \<open>
  Claim C2. The prompt starts with the user's query; the markup is embedded unchanged
  when it has at most 5000 code units, and otherwise as its first 5000 code units
  followed by the truncation marker. This prompt is the initial message of the
  explorer call made on submit.
\<close>

theorem C2_prompt_embeds_first_5000:
  "buildSeerPrompt userQuery html =
     userQuery @ promptIntro
       @ (if length html \<le> 5000 then html else take 5000 html @ truncationMarker)
       @ promptOutro
   \<and> seerExplorerCalls (onSubmit html userQuery s) =
       seerExplorerCalls s @ [buildSeerPrompt userQuery html]"
proof -
  have sl: "slice html 0 5000 = take 5000 html"
    using slice_prefix [of 5000 html] by simp
  show ?thesis
    by (simp add: buildSeerPrompt_def sl onSubmit_def openSeerExplorer_def closeModal_def)
qed

theorem C2_prompt_embeds_first_5000_witness:
  "buildSeerPrompt (lit ''why?'') (lit ''<p>hi</p>'')
     = lit ''why?'' @ promptIntro @ lit ''<p>hi</p>'' @ promptOutro"
  using C2_prompt_embeds_first_5000 [of "lit ''why?''" "lit ''<p>hi</p>''"]
  by (simp add: lit_def)

text \<open>
  Claim C3. The preview is the selected markup itself when it has at most 200 code
  units, and its first 200 code units followed by three dots when it has more; markup
  of exactly 200 code units is shown whole.
\<close>

theorem C3_preview_truncates_at_200:
  "(length selectedHtml \<le> 200 \<longrightarrow> htmlPreview selectedHtml = selectedHtml)
 \<and> (length selectedHtml > 200 \<longrightarrow>
       htmlPreview selectedHtml = take 200 selectedHtml @ lit ''...'')
 \<and> (length selectedHtml = 200 \<longrightarrow> htmlPreview selectedHtml = selectedHtml)"
proof -
  have sl: "slice selectedHtml 0 200 = take 200 selectedHtml"
    using slice_prefix [of 200 selectedHtml] by simp
  show ?thesis by (simp add: htmlPreview_def sl)
qed

theorem C3_preview_truncates_at_200_witness:
  "length (replicate 200 (0x61 :: jschar)) = 200
   \<and> htmlPreview (replicate 200 0x61) = replicate 200 0x61
   \<and> length (replicate 201 (0x61 :: jschar)) > 200
   \<and> htmlPreview (replicate 201 0x61) = replicate 200 0x61 @ lit ''...''"
  using C3_preview_truncates_at_200 [of "replicate 200 0x61"]
    C3_preview_truncates_at_200 [of "replicate 201 0x61"]
  by simp

section \<open>Highlighting\<close>

lemma cleanupHighlight_refs:
  "previousHighlightRef (cleanupHighlight s) = None
   \<and> browser (cleanupHighlight s) = browser s
   \<and> (previousHighlightRef s \<noteq> None \<longrightarrow> previousStyleRef (cleanupHighlight s) = [])"
  by (simp add: cleanupHighlight_def setCssText_def split: option.splits)

lemma cleanupHighlight_None: "previousHighlightRef s = None \<Longrightarrow> cleanupHighlight s = s"
  by (simp add: cleanupHighlight_def)

lemma cleanupHighlight_Some:
  "previousHighlightRef s = Some el \<Longrightarrow>
     inlineStyle (cleanupHighlight s)
       = (inlineStyle s)(el := parseBlock (browser s) (previousStyleRef s))"
  by (simp add: cleanupHighlight_def setCssText_def)

text \<open>
  Claim C4. A mouseover on an element (not the body, not the root element) reads the
  element's \<open>cssText\<close> as it is after any earlier highlight has been undone, saves that
  string, and assigns the string with the highlight style appended. The next
  \<open>cleanupHighlight\<close>, whether called directly, by a mouseout on the element, by a
  mouseover on another element, by a click or by \<open>stopInspecting\<close>, assigns the saved
  string back and resets the saved element to null and the saved style to the empty
  string. Provided the browser reads back a style it was given from its own
  serialisation as that same string, the element's \<open>cssText\<close> is then exactly the saved
  string again, and no other element's style has changed.
\<close>

theorem C4_highlight_round_trip:
  assumes "e_target e = Some t" and "t \<noteq> Body doc" and "t \<noteq> DocumentElement doc"
    and "s0 = cleanupHighlight s"
    and "s1 = handleMouseOver doc e s"
    and "serializeBlock (browser s) (parseBlock (browser s) (cssText s0 t)) = cssText s0 t"
  shows "previousHighlightRef s1 = Some t
       \<and> previousStyleRef s1 = cssText s0 t
       \<and> inlineStyle s1
           = (inlineStyle s0)(t := parseBlock (browser s) (previousStyleRef s1 @ HIGHLIGHT_STYLE))
       \<and> inlineStyle (cleanupHighlight s1)
           = (inlineStyle s0)(t := parseBlock (browser s) (previousStyleRef s1))
       \<and> cssText (cleanupHighlight s1) t = previousStyleRef s1
       \<and> cssText (cleanupHighlight s1) = cssText s0
       \<and> previousHighlightRef (cleanupHighlight s1) = None
       \<and> previousStyleRef (cleanupHighlight s1) = []
       \<and> (\<forall>e' :: event. e_target e' = Some t \<longrightarrow> handleMouseOut e' s1 = cleanupHighlight s1)
       \<and> (\<forall>(e' :: event) t'. e_target e' = Some t' \<and> t' \<noteq> Body doc \<and> t' \<noteq> DocumentElement doc
             \<and> t' \<noteq> t \<longrightarrow>
             cssText (handleMouseOver doc e' s1) t = previousStyleRef s1)
       \<and> (\<forall>n. (\<forall>d. n \<noteq> Body d) \<longrightarrow>
             cssText (stopInspecting s1) n = cssText s0 n)
       \<and> previousHighlightRef (stopInspecting s1) = None
       \<and> previousStyleRef (stopInspecting s1) = []
       \<and> (\<forall>(e' :: event) t' n. e_target e' = Some t' \<and> t' \<noteq> Body doc \<and> t' \<noteq> DocumentElement doc
             \<and> (\<forall>d. n \<noteq> Body d) \<longrightarrow>
             cssText (handleClick doc e' s1) n = cssText s0 n
             \<and> previousHighlightRef (handleClick doc e' s1) = None
             \<and> previousStyleRef (handleClick doc e' s1) = [])"
proof -
  let ?P = "parseBlock (browser s)"
  let ?S = "serializeBlock (browser s)"
  have b0: "browser s0 = browser s" and p0: "previousHighlightRef s0 = None"
    using cleanupHighlight_refs [of s] by (simp_all add: assms(4))
  have s1: "s1 = setCssText t (cssText s0 t @ HIGHLIGHT_STYLE)
                   (s0\<lparr>previousHighlightRef := Some t, previousStyleRef := cssText s0 t\<rparr>)"
    using assms(1,2,3) by (simp add: assms(4,5) handleMouseOver_def Let_def cssText_def)
  have a: "previousHighlightRef s1 = Some t"
    and b: "previousStyleRef s1 = cssText s0 t"
    and b1: "browser s1 = browser s"
    and c: "inlineStyle s1 = (inlineStyle s0)(t := ?P (previousStyleRef s1 @ HIGHLIGHT_STYLE))"
    by (simp_all add: s1 setCssText_def b0)
  have d: "inlineStyle (cleanupHighlight s1) = (inlineStyle s0)(t := ?P (previousStyleRef s1))"
    using cleanupHighlight_Some [OF a] by (simp add: c b1)
  have bc: "browser (cleanupHighlight s1) = browser s"
    using cleanupHighlight_refs [of s1] b1 by simp
  have rt: "?S (?P (previousStyleRef s1)) = previousStyleRef s1"
    using assms(6) b by simp
  have k: "cssText (cleanupHighlight s1) t = previousStyleRef s1"
    by (simp add: cssText_def d bc rt)
  have k': "cssText (cleanupHighlight s1) = cssText s0"
  proof
    fix n
    show "cssText (cleanupHighlight s1) n = cssText s0 n"
    proof (cases "n = t")
      case True
      then show ?thesis using k b by simp
    next
      case False
      then show ?thesis by (simp add: cssText_def d bc b0)
    qed
  qed
  have e1: "previousHighlightRef (cleanupHighlight s1) = None"
    and e2: "previousStyleRef (cleanupHighlight s1) = []"
    using cleanupHighlight_refs [of s1] a by simp_all
  have h: "\<forall>e' :: event. e_target e' = Some t \<longrightarrow> handleMouseOut e' s1 = cleanupHighlight s1"
    using a by (simp add: handleMouseOut_def)
  have i: "\<forall>(e' :: event) t'. e_target e' = Some t' \<and> t' \<noteq> Body doc \<and> t' \<noteq> DocumentElement doc
             \<and> t' \<noteq> t \<longrightarrow>
             cssText (handleMouseOver doc e' s1) t = previousStyleRef s1"
  proof (intro allI impI)
    fix e' :: event and t'
    assume q: "e_target e' = Some t' \<and> t' \<noteq> Body doc \<and> t' \<noteq> DocumentElement doc \<and> t' \<noteq> t"
    then have "cssText (handleMouseOver doc e' s1) t = cssText (cleanupHighlight s1) t"
      by (auto simp: handleMouseOver_def Let_def cssText_def setCssText_def)
    then show "cssText (handleMouseOver doc e' s1) t = previousStyleRef s1" using k by simp
  qed
  have st: "inlineStyle (stopInspecting s1) =
        (case replayIframe s1 of
           None \<Rightarrow> inlineStyle (cleanupHighlight s1)
         | Some d \<Rightarrow> inlineStyle (setBodyCursor d [] (cleanupHighlight s1)))"
    and bs: "browser (stopInspecting s1) = browser s1"
    and g1: "previousHighlightRef (stopInspecting s1) = None"
    using stopInspecting_fields [of s1] by simp_all
  have g2: "previousStyleRef (stopInspecting s1) = []"
    using a by (simp add: stopInspecting_style)
  have g: "\<forall>n. (\<forall>d. n \<noteq> Body d) \<longrightarrow> cssText (stopInspecting s1) n = cssText s0 n"
  proof (intro allI impI)
    fix n :: node
    assume nb: "\<forall>d. n \<noteq> Body d"
    have "inlineStyle (stopInspecting s1) n = inlineStyle (cleanupHighlight s1) n"
      using nb by (simp add: st setBodyCursor_def split: option.splits)
    then have "cssText (stopInspecting s1) n = cssText (cleanupHighlight s1) n"
      by (simp add: cssText_def bs b1 bc)
    then show "cssText (stopInspecting s1) n = cssText s0 n" using k' by simp
  qed
  have j: "\<forall>(e' :: event) t' n. e_target e' = Some t' \<and> t' \<noteq> Body doc \<and> t' \<noteq> DocumentElement doc
             \<and> (\<forall>d. n \<noteq> Body d) \<longrightarrow>
             cssText (handleClick doc e' s1) n = cssText s0 n
             \<and> previousHighlightRef (handleClick doc e' s1) = None
             \<and> previousStyleRef (handleClick doc e' s1) = []"
  proof (intro allI impI)
    fix e' :: event and t' and n :: node
    assume q: "e_target e' = Some t' \<and> t' \<noteq> Body doc \<and> t' \<noteq> DocumentElement doc
             \<and> (\<forall>d. n \<noteq> Body d)"
    let ?u = "s1\<lparr>suppressed := Suc (suppressed s1)\<rparr>"
    have su: "stopInspecting ?u = (stopInspecting s1)\<lparr>suppressed := Suc (suppressed s1)\<rparr>"
      by (simp add: stopInspecting_def cleanupHighlight_def setCssText_def setBodyCursor_def
          togglePlayPause_def Let_def split: option.splits)
    have hc: "handleClick doc e' s1
                = openModal (slice (outerHTML ?u t') 0 10000) (stopInspecting ?u)"
      using q by (simp add: handleClick_def handleElementSelected_def Let_def)
    have "cssText (handleClick doc e' s1) n = cssText (stopInspecting s1) n"
      and "previousHighlightRef (handleClick doc e' s1) = previousHighlightRef (stopInspecting s1)"
      and "previousStyleRef (handleClick doc e' s1) = previousStyleRef (stopInspecting s1)"
      by (simp_all add: hc su openModal_def cssText_def)
    then show "cssText (handleClick doc e' s1) n = cssText s0 n
             \<and> previousHighlightRef (handleClick doc e' s1) = None
             \<and> previousStyleRef (handleClick doc e' s1) = []"
      using g g1 g2 q by simp
  qed
  show ?thesis using a b c d k k' e1 e2 h i g g1 g2 j by blast
qed

theorem C4_highlight_round_trip_witness:
  "previousStyleRef
      (handleMouseOver 0 (mouseEvent ''mouseover'' (Some (Element 1))) (examplePage True))
     = lit ''color: red;''
   \<and> cssText
        (cleanupHighlight
          (handleMouseOver 0 (mouseEvent ''mouseover'' (Some (Element 1))) (examplePage True)))
        (Element 1)
     = lit ''color: red;''"
proof -
  let ?e = "mouseEvent ''mouseover'' (Some (Element 1))"
  have p: "previousHighlightRef (examplePage True) = None"
    and b: "browser (examplePage True) = exampleCssom"
    by (simp_all add: page_defs)
  have c: "examplePage True = cleanupHighlight (examplePage True)"
    using p by (simp add: cleanupHighlight_None)
  have q: "cssText (examplePage True) (Element 1) = lit ''color: red;''"
    by (simp add: page_defs cssText_def exampleSerialize_def exampleSerializeDeclaration_def
        lit_def)
  have r1: "splitOn 0x3B (lit ''color: red;'') = [lit ''color: red'', []]"
    by (simp add: lit_def)
  have r2: "exampleParseDeclaration (lit ''color: red'')
              = Some (lit ''color'', lit ''red'', False)"
    by (simp add: exampleParseDeclaration_def trim_def isWhiteSpace_def lit_def Let_def)
  have r3: "exampleParseDeclaration [] = None"
    by (simp add: exampleParseDeclaration_def trim_def Let_def)
  have r: "exampleParse (lit ''color: red;'') = [(lit ''color'', lit ''red'', False)]"
    unfolding exampleParse_def r1 by (simp add: List.map_filter_simps r2 r3)
  have h: "serializeBlock (browser (examplePage True))
             (parseBlock (browser (examplePage True)) (cssText (examplePage True) (Element 1)))
           = cssText (examplePage True) (Element 1)"
    unfolding q b
    by (simp add: exampleCssom_def r exampleSerialize_def exampleSerializeDeclaration_def)
      (simp add: lit_def)
  have t: "e_target ?e = Some (Element 1)" by (simp add: mouseEvent_def)
  have n1: "Element 1 \<noteq> Body 0" and n2: "Element 1 \<noteq> DocumentElement 0" by simp_all
  show ?thesis
    using C4_highlight_round_trip [OF t n1 n2 c refl h] q by simp
qed

section \<open>Attaching and detaching listeners\<close>

text \<open>
  Claim C5. The cleanup of the effect removes the five listeners the effect attached:
  mouseover, mouseout, click and keydown on the iframe's document and keydown on the
  parent document, each with the same handler, event name and capture flag. After every
  run of the mounted component, no listener is registered while the inspecting flag is
  off, and while it is on exactly the five of the last run of the effect are, which that
  run's cleanup removes.
\<close>

theorem C5_listener_parity:
  assumes "s = runActions as (mount iframe playing styles markup engine)"
  shows "detachCalls r doc = attachCalls r doc
       \<and> map (\<lambda>l. (l_target l, l_type l, c_fn (l_callback l), l_capture l)) (attachCalls r doc)
           = [(IframeDocument doc, ''mouseover'', HandleMouseOver, True),
              (IframeDocument doc, ''mouseout'', HandleMouseOut, True),
              (IframeDocument doc, ''click'', HandleClick, True),
              (IframeDocument doc, ''keydown'', HandleKeyDown, True),
              (ParentDocument, ''keydown'', HandleKeyDown, True)]
       \<and> (\<not> isInspecting s \<longrightarrow> listeners s = [] \<and> effectCleanup s = None)
       \<and> (isInspecting s \<longrightarrow>
            (\<exists>r' d. effectCleanup s = Some (r', d) \<and> listeners s = attachCalls r' d
                  \<and> listeners (runCleanup s) = []))"
proof -
  have st: "settled s" unfolding assms by (rule reachable_settled)
  have a: "detachCalls r doc = attachCalls r doc"
    by (simp add: detachCalls_def attachCalls_def)
  have b: "map (\<lambda>l. (l_target l, l_type l, c_fn (l_callback l), l_capture l)) (attachCalls r doc)
           = [(IframeDocument doc, ''mouseover'', HandleMouseOver, True),
              (IframeDocument doc, ''mouseout'', HandleMouseOut, True),
              (IframeDocument doc, ''click'', HandleClick, True),
              (IframeDocument doc, ''keydown'', HandleKeyDown, True),
              (ParentDocument, ''keydown'', HandleKeyDown, True)]"
    by (simp add: attachCalls_def mkListener_def)
  have c: "\<not> isInspecting s \<longrightarrow> listeners s = [] \<and> effectCleanup s = None"
    using settled_cases [OF st] by auto
  have d: "isInspecting s \<longrightarrow>
            (\<exists>r' d. effectCleanup s = Some (r', d) \<and> listeners s = attachCalls r' d
                  \<and> listeners (runCleanup s) = [])"
  proof
    assume "isInspecting s"
    then obtain r' d where e: "effectCleanup s = Some (r', d)" and l: "listeners s = attachCalls r' d"
      using settled_cases [OF st] by auto
    have "listeners (runCleanup s) = []"
      by (simp add: runCleanup_wired [OF settled_wired [OF st]])
    with e l show "\<exists>r' d. effectCleanup s = Some (r', d) \<and> listeners s = attachCalls r' d
                  \<and> listeners (runCleanup s) = []" by blast
  qed
  show ?thesis using a b c d by blast
qed

theorem C5_listener_parity_witness:
  "isInspecting (runActions [ClickInspectButton] (examplePage True))
   \<and> listeners (runActions [ClickInspectButton] (examplePage True)) = attachCalls 2 0
   \<and> \<not> isInspecting (runActions [ClickInspectButton, ClickInspectButton] (examplePage True))
   \<and> listeners (runActions [ClickInspectButton, ClickInspectButton] (examplePage True)) = []"
proof -
  have i: "isInspecting (runActions [ClickInspectButton] (examplePage True))"
    and c: "effectCleanup (runActions [ClickInspectButton] (examplePage True)) = Some (2, 0)"
    and n: "\<not> isInspecting (runActions [ClickInspectButton, ClickInspectButton] (examplePage True))"
    by (simp_all add: run_defs)
  show ?thesis
    using i c n
      C5_listener_parity [of "runActions [ClickInspectButton] (examplePage True)"
        "[ClickInspectButton]" "Some 0" True exampleStyles exampleMarkup exampleCssom 2 0]
      C5_listener_parity [of "runActions [ClickInspectButton, ClickInspectButton] (examplePage True)"
        "[ClickInspectButton, ClickInspectButton]" "Some 0" True exampleStyles exampleMarkup
        exampleCssom 2 0]
    by (auto simp: examplePage_def)
qed

section \<open>Leaving inspection with Escape\<close>




section \<open>A missing iframe\<close>

text \<open>
  Claim C8. With the iframe or its document missing, \<open>handleToggleInspect\<close> called
  while inspection is off returns the state unchanged: playback is not paused, the
  inspecting flag and the was-playing flag are not set. When the effect runs with the
  inspecting flag on and the iframe missing, it turns the flag off and attaches no
  listener.
\<close>

theorem C8_missing_iframe_guards:
  assumes "replayIframe s = None"
  shows "(\<not> isInspecting s \<longrightarrow> handleToggleInspect s = s)
       \<and> (isInspecting s \<longrightarrow> effectBody s = s\<lparr>isInspecting := False\<rparr>)
       \<and> (isInspecting s \<and> wired s \<and> (ctxChanged \<or> effectDeps s \<noteq> Some True) \<longrightarrow>
             \<not> isInspecting (render ctxChanged s)
           \<and> listeners (render ctxChanged s) = []
           \<and> effectCleanup (render ctxChanged s) = None
           \<and> \<not> isInspecting (flush ctxChanged s)
           \<and> listeners (flush ctxChanged s) = [])
       \<and> (\<not> isInspecting s \<and> settled s \<longrightarrow> step ClickInspectButton s = s)"
proof -
  have a: "\<not> isInspecting s \<longrightarrow> handleToggleInspect s = s"
    using assms by (simp add: handleToggleInspect_def)
  have b: "isInspecting s \<longrightarrow> effectBody s = s\<lparr>isInspecting := False\<rparr>"
    using assms by (simp add: effectBody_def setBodyCursor_def)
  have c: "isInspecting s \<and> wired s \<and> (ctxChanged \<or> effectDeps s \<noteq> Some True) \<longrightarrow>
             \<not> isInspecting (render ctxChanged s)
           \<and> listeners (render ctxChanged s) = []
           \<and> effectCleanup (render ctxChanged s) = None
           \<and> \<not> isInspecting (flush ctxChanged s)
           \<and> listeners (flush ctxChanged s) = []"
  proof
    assume h: "isInspecting s \<and> wired s \<and> (ctxChanged \<or> effectDeps s \<noteq> Some True)"
    then have r: "render ctxChanged s = s\<lparr>listeners := [], effectCleanup := None,
         effectDeps := Some True, effectRuns := Suc (effectRuns s), isInspecting := False\<rparr>"
      using assms by (auto simp: render_wired)
    have f: "settled (flush ctxChanged s)" using h by (simp add: flush_wired)
    have "\<not> isInspecting (flush ctxChanged s)"
      unfolding flush_def r by (simp add: render_unsettled)
    moreover from this f have "listeners (flush ctxChanged s) = []"
      using settled_cases [OF f] by auto
    ultimately show "\<not> isInspecting (render ctxChanged s)
           \<and> listeners (render ctxChanged s) = []
           \<and> effectCleanup (render ctxChanged s) = None
           \<and> \<not> isInspecting (flush ctxChanged s)
           \<and> listeners (flush ctxChanged s) = []"
      by (simp add: r)
  qed
  have d: "\<not> isInspecting s \<and> settled s \<longrightarrow> step ClickInspectButton s = s"
    using a by (simp add: flush_settled)
  show ?thesis using a b c d by blast
qed

theorem C8_missing_iframe_guards_witness:
  "replayIframe (mount None True exampleStyles exampleMarkup exampleCssom) = None
   \<and> handleToggleInspect (mount None True exampleStyles exampleMarkup exampleCssom)
       = mount None True exampleStyles exampleMarkup exampleCssom
   \<and> step ClickInspectButton (mount None True exampleStyles exampleMarkup exampleCssom)
       = mount None True exampleStyles exampleMarkup exampleCssom
   \<and> \<not> isInspecting
        (flush False ((handleToggleInspect (examplePage True))\<lparr>replayIframe := None\<rparr>))
   \<and> listeners
        (flush False ((handleToggleInspect (examplePage True))\<lparr>replayIframe := None\<rparr>)) = []"
proof -
  let ?m = "mount None True exampleStyles exampleMarkup exampleCssom"
  let ?h = "(handleToggleInspect (examplePage True))\<lparr>replayIframe := None\<rparr>"
  have a: "replayIframe ?m = None" and b: "\<not> isInspecting ?m"
    by (simp_all add: page_defs)
  have c: "settled ?m" by (rule mount_settled)
  have d: "replayIframe ?h = None" by simp
  have e: "isInspecting ?h" and f: "effectDeps ?h \<noteq> Some True"
    by (simp_all add: run_defs)
  have g: "wired ?h" by (simp add: wired_def run_defs)
  show ?thesis
    using C8_missing_iframe_guards [OF a, of False] C8_missing_iframe_guards [OF d, of False]
      a b c e f g flush_settled [OF c]
    by simp
qed

section \<open>Pausing and resuming playback\<close>

text \<open>
  Claim C6. \<open>handleToggleInspect_start\<close> and \<open>stopInspecting_fields\<close> show what
  the two functions do on their own: starting inspection pauses playback exactly when it
  is playing and then sets the was-playing flag, without ever clearing it; stopping
  resumes playback exactly when the flag is set, and clears it. The effect's guard for a
  missing iframe ends inspection without calling \<open>stopInspecting\<close>, so the flag
  stays set and playback stays paused. On \<open>staleFlagRun\<close> the second inspection
  starts while playback is not active, and the Escape that ends it calls
  \<open>togglePlayPause(true)\<close>.
\<close>

theorem C6_stale_flag_starts_playback:
  "\<not> isInspecting (runActions (take 5 staleFlagRun) (examplePage True))
 \<and> \<not> isPlaying (runActions (take 5 staleFlagRun) (examplePage True))
 \<and> wasPlayingRef (runActions (take 5 staleFlagRun) (examplePage True))
 \<and> playPauseCalls (runActions (take 5 staleFlagRun) (examplePage True)) = [False]
 \<and> isInspecting (runActions (take 6 staleFlagRun) (examplePage True))
 \<and> playPauseCalls (runActions (take 6 staleFlagRun) (examplePage True)) = [False]
 \<and> \<not> isInspecting (runActions staleFlagRun (examplePage True))
 \<and> playPauseCalls (runActions staleFlagRun (examplePage True)) = [False, True]
 \<and> isPlaying (runActions staleFlagRun (examplePage True))"
  by (simp add: runActions_def staleFlagRun_def page_defs handleToggleInspect_def
      togglePlayPause_def attachCalls_def detachCalls_def mkListener_def addEventListener_def
      removeEventListener_def dispatchEvent_def invoke_def handleKeyDown_def stopInspecting_def
      cleanupHighlight_def setCssText_def setBodyCursor_def Let_def)

section \<open>The query form\<close>

lemma trim_Nil_iff: "trim q = [] \<longleftrightarrow> (\<forall>c\<in>set q. isWhiteSpace c)"
proof
  assume e: "trim q = []"
  obtain pre post where "q = pre @ trim q @ post" "\<forall>c\<in>set pre. isWhiteSpace c" "\<forall>c\<in>set post. isWhiteSpace c"
    using trim_split [of q] by blast
  with e have "q = pre @ post" by simp
  then have "set q = set pre \<union> set post" by simp
  with \<open>\<forall>c\<in>set pre. isWhiteSpace c\<close> \<open>\<forall>c\<in>set post. isWhiteSpace c\<close>
  show "\<forall>c\<in>set q. isWhiteSpace c" by blast
next
  assume "\<forall>c\<in>set q. isWhiteSpace c" then show "trim q = []" by (rule trim_all_ws)
qed

text \<open>
  Claim C9. Submitting a query that is empty or all white space calls nothing and leaves
  the state as it is, and the submit button is disabled exactly for such queries.
  Whenever \<open>onSubmit\<close> is called, its argument is the trimmed query: it is not
  empty, does not start or end with white space, and the query is that argument with
  white space around it.
\<close>

theorem C9_submit_only_trimmed_nonempty:
  "((query = [] \<or> (\<forall>c\<in>set query. isWhiteSpace c)) \<longrightarrow>
       handleSubmit query = None \<and> submitDisabled query \<and> submitForm query s = s)
 \<and> (handleSubmit query = None \<longleftrightarrow> (\<forall>c\<in>set query. isWhiteSpace c))
 \<and> (submitDisabled query \<longleftrightarrow> (\<forall>c\<in>set query. isWhiteSpace c))
 \<and> (\<forall>r. handleSubmit query = Some r \<longrightarrow>
       r = trim query \<and> r \<noteq> []
       \<and> \<not> isWhiteSpace (hd r) \<and> \<not> isWhiteSpace (last r)
       \<and> (\<exists>pre post. query = pre @ r @ post
             \<and> (\<forall>c\<in>set pre. isWhiteSpace c) \<and> (\<forall>c\<in>set post. isWhiteSpace c)))"
proof (intro conjI impI allI)
  assume "query = [] \<or> (\<forall>c\<in>set query. isWhiteSpace c)"
  then have a: "\<forall>c\<in>set query. isWhiteSpace c" by auto
  then have t: "trim query = []" by (rule trim_all_ws)
  show "handleSubmit query = None" by (simp add: handleSubmit_def truthy_def t)
  show "submitDisabled query" by (simp add: submitDisabled_def truthy_def t)
  show "submitForm query s = s"
    by (simp add: submitForm_def handleSubmit_def truthy_def t split: option.splits)
next
  show "handleSubmit query = None \<longleftrightarrow> (\<forall>c\<in>set query. isWhiteSpace c)"
    using trim_Nil_iff [of query] by (simp add: handleSubmit_def truthy_def)
next
  show "submitDisabled query \<longleftrightarrow> (\<forall>c\<in>set query. isWhiteSpace c)"
    using trim_Nil_iff [of query] by (simp add: submitDisabled_def truthy_def)
next
  fix r assume h: "handleSubmit query = Some r"
  then have r: "r = trim query" and ne: "trim query \<noteq> []"
    by (auto simp: handleSubmit_def truthy_def split: if_splits)
  show "r = trim query" by (rule r)
  show "r \<noteq> []" using r ne by simp
  show "\<not> isWhiteSpace (hd r)" using trim_hd [OF ne] r by simp
  show "\<not> isWhiteSpace (last r)" using trim_last [OF ne] r by simp
  show "\<exists>pre post. query = pre @ r @ post
             \<and> (\<forall>c\<in>set pre. isWhiteSpace c) \<and> (\<forall>c\<in>set post. isWhiteSpace c)"
    using trim_split [of query] r by simp
qed

theorem C9_submit_only_trimmed_nonempty_witness:
  "list_all isWhiteSpace (lit ''  '')
   \<and> handleSubmit (lit ''  '') = None \<and> submitDisabled (lit ''  '')
   \<and> submitForm (lit ''  '') (examplePage True) = examplePage True
   \<and> handleSubmit (lit '' hi '') = Some (lit ''hi'')
   \<and> lit ''hi'' = trim (lit '' hi '')"
proof -
  have w: "\<forall>c\<in>set (lit ''  ''). isWhiteSpace c"
    by (simp add: lit_def isWhiteSpace_def)
  have t: "trim (lit '' hi '') = lit ''hi''"
    by (simp add: trim_def lit_def isWhiteSpace_def)
  have h: "handleSubmit (lit '' hi '') = Some (lit ''hi'')"
    by (simp add: handleSubmit_def truthy_def t) (simp add: lit_def)
  have a: "handleSubmit (lit ''  '') = None \<and> submitDisabled (lit ''  '')
      \<and> submitForm (lit ''  '') (examplePage True) = examplePage True"
    using C9_submit_only_trimmed_nonempty [of "lit ''  ''" "examplePage True"] w by blast
  have b: "lit ''hi'' = trim (lit '' hi '')"
    using C9_submit_only_trimmed_nonempty [of "lit '' hi ''" "examplePage True"] h by blast
  have l: "list_all isWhiteSpace (lit ''  '')"
    using w by (simp add: list_all_iff)
  show ?thesis using l h a b by blast
qed

section \<open>Events on the body and the root element\<close>

text \<open>
  Claim C10. A mouseover whose target is missing, the body or the root element of the
  iframe's document changes nothing: no element is highlighted and the saved style is
  kept. A click with such a target only has its default action and propagation stopped:
  no markup is captured, inspection goes on, and no modal is opened.
\<close>

theorem C10_body_and_root_ignored:
  assumes "e_target e = None \<or> e_target e = Some (Body doc)
             \<or> e_target e = Some (DocumentElement doc)"
  shows "handleMouseOver doc e s = s
       \<and> handleClick doc e s = s\<lparr>suppressed := Suc (suppressed s)\<rparr>
       \<and> previousHighlightRef (handleMouseOver doc e s) = previousHighlightRef s
       \<and> previousStyleRef (handleMouseOver doc e s) = previousStyleRef s
       \<and> cssText (handleMouseOver doc e s) = cssText s
       \<and> modal (handleClick doc e s) = modal s
       \<and> isInspecting (handleClick doc e s) = isInspecting s
       \<and> playPauseCalls (handleClick doc e s) = playPauseCalls s"
  using assms by (auto simp: handleMouseOver_def handleClick_def Let_def)

theorem C10_body_and_root_ignored_witness:
  "handleMouseOver 0 (mouseEvent ''mouseover'' (Some (Body 0))) (examplePage True)
     = examplePage True
   \<and> modal (handleClick 0 (mouseEvent ''click'' (Some (DocumentElement 0))) (examplePage True))
     = None"
proof -
  have m: "modal (examplePage True) = None" by (simp add: page_defs)
  show ?thesis
    using m C10_body_and_root_ignored
        [of "mouseEvent ''mouseover'' (Some (Body 0))" 0 "examplePage True"]
      C10_body_and_root_ignored
        [of "mouseEvent ''click'' (Some (DocumentElement 0))" 0 "examplePage True"]
    by (simp add: mouseEvent_def)
qed

end
